theory Spec2Isabelle
  imports Complex_Main "HOL-Library.Multiset" "HOL-Library.List_Lexorder" "HOL-Library.Char_ord"
begin

section \<open>PSER Survey: the record list and its two stores\<close>

text \<open>
  A shallow embedding of the persistence layer of \<^verbatim>\<open>src/app.js\<close> (class
  \<^verbatim>\<open>PSERSurvey\<close>): the in-memory array \<^verbatim>\<open>this.surveys\<close>, the IndexedDB object
  store \<^verbatim>\<open>surveys\<close> of \<^verbatim>\<open>PSERDatabase\<close>, and the \<^verbatim>\<open>pserSurveys\<close> item of
  localStorage.  Mutation is explicit state passing: a method takes the object
  (\<open>this\<close>) and the durable world and returns the new ones.  What the browser decides
  (whether a request succeeds, what the user answers to a dialog, what the clock reads)
  is an argument of the method.  Dialogs and console output are not part of the state.
\<close>

subsection \<open>The record\<close>

text \<open>
  The object built by \<^verbatim>\<open>getFormData\<close>.  Counts are integers (the result of
  \<^verbatim>\<open>parseInt\<close> on a numeric field); \<^verbatim>\<open>NaN\<close> is not a value of the model.
\<close>

record location =
  latitude :: real
  longitude :: real
  accuracy :: real

record livestock =
  buffalo :: int
  cow :: int
  goat :: int
  sheep :: int

record transport =
  motorcycle :: int
  car :: int
  van :: int
  scooter :: int

record appliances =
  solar :: int
  ac :: int
  geyser :: int
  washingMachine :: int
  fridge :: int

record survey =
  id' :: string
  blockCode :: string
  houseNumber :: int
  familiesCount :: int
  xFamily :: string
  houseCode :: string
  respondentName :: string
  hohName :: string
  hohFatherName :: string
  hohCnic :: string
  maleMembers :: int
  femaleMembers :: int
  othersMembers :: int
  totalMembers :: int
  registerNumber :: "int option"
  location :: "location option"
  photo :: "string option"
  signature :: "string option"
  livestock :: livestock
  transport :: transport
  appliances :: appliances
  contactNumber :: string
  timestamp :: string

subsection \<open>JavaScript values and errors\<close>

datatype js_error =
  SyntaxError | TypeError | QuotaExceededError | ConstraintError | AbortError | UnknownError
  | SecurityError | InvalidBackup

text \<open>
  A text handed to \<^verbatim>\<open>JSON.parse\<close> is either the serialisation of a value, identified
  with the value it denotes (\<^verbatim>\<open>JSON.parse\<close> inverts \<^verbatim>\<open>JSON.stringify\<close> on strings,
  integers, \<^verbatim>\<open>null\<close>, arrays and plain objects), or a string that is not JSON; the empty
  string is \<open>Unparseable []\<close>.
\<close>

datatype 'v json_text = Stringified 'v | Unparseable string

definition JSON_stringify :: "'v \<Rightarrow> 'v json_text" where
  "JSON_stringify v = Stringified v"

fun JSON_parse :: "'v json_text \<Rightarrow> js_error + 'v" where
  "JSON_parse (Stringified v) = Inr v"
| "JSON_parse (Unparseable s) = Inl SyntaxError"

text \<open>A string is falsy exactly when it is empty.\<close>

fun truthy_text :: "'v json_text \<Rightarrow> bool" where
  "truthy_text (Stringified v) = True"
| "truthy_text (Unparseable s) = (s \<noteq> [])"

text \<open>
  The content of a backup file after \<^verbatim>\<open>JSON.parse\<close>.  An array is an array of
  records, the only arrays \<^verbatim>\<open>this.surveys\<close> can hold in this model.
\<close>

datatype json =
  JNull | JBool bool | JNum int | JStr string | JArr "survey list" | JObj "(string \<times> json) list"

fun truthy :: "json \<Rightarrow> bool" where
  "truthy JNull = False"
| "truthy (JBool b) = b"
| "truthy (JNum n) = (n \<noteq> 0)"
| "truthy (JStr s) = (s \<noteq> [])"
| "truthy (JArr xs) = True"
| "truthy (JObj kvs) = True"

fun isArray :: "json \<Rightarrow> bool" where
  "isArray (JArr xs) = True"
| "isArray v = False"

text \<open>
  Property access \<^verbatim>\<open>v.surveys\<close>: a \<^verbatim>\<open>TypeError\<close> on \<^verbatim>\<open>null\<close>, \<^verbatim>\<open>undefined\<close>
  (\<open>None\<close>) on a primitive, on an array and on an object without the key.
\<close>

fun get_surveys :: "json \<Rightarrow> js_error + json option" where
  "get_surveys JNull = Inl TypeError"
| "get_surveys (JObj kvs) = Inr (map_of kvs ''surveys'')"
| "get_surveys v = Inr None"

subsection \<open>The durable world and the object\<close>

text \<open>
  \<open>objectStore\<close> is the content of the IndexedDB object store (key path \<^verbatim>\<open>id\<close>), its
  records in key order, as \<^verbatim>\<open>getAll\<close> returns them.  \<open>pserSurveys\<close> is the localStorage
  item (\<open>None\<close> when \<^verbatim>\<open>getItem\<close> returns \<^verbatim>\<open>null\<close>).
\<close>

record world =
  objectStore :: "survey list"
  pserSurveys :: "survey list json_text option"

datatype handle = IDBDatabase

record PSERSurvey =
  database :: "handle option"
  surveys :: "survey list"
  currentEditId :: "string option"

definition constructor :: PSERSurvey where
  "constructor = \<lparr>database = None, surveys = [], currentEditId = None\<rparr>"

text \<open>The outcomes of the requests of one \<^verbatim>\<open>saveToDatabase\<close> call.\<close>

record io =
  clear_ok :: bool
  add_ok :: "nat \<Rightarrow> bool"
  setItem_ok :: bool

subsection \<open>The object store\<close>

text \<open>
  \<^verbatim>\<open>store.add\<close> fails with a \<^verbatim>\<open>ConstraintError\<close> when the key is already present,
  and otherwise inserts the record at its place in key order.
\<close>

definition store_add :: "survey \<Rightarrow> survey list \<Rightarrow> js_error + survey list" where
  "store_add s store =
     (if id' s \<in> set (map id' store) then Inl ConstraintError
      else Inr (insort_key id' s store))"

text \<open>
  \<^verbatim>\<open>this.surveys.map(survey => new Promise(...store.add(survey)...))\<close> followed by
  \<^verbatim>\<open>Promise.all\<close>: the requests are served in turn inside one transaction.  \<open>ok i\<close> is
  the browser's verdict on the \<open>i\<close>-th request.  \<^verbatim>\<open>addRequest.onerror\<close> rejects its
  promise and does not call \<^verbatim>\<open>preventDefault\<close>, so the first failed request aborts the
  transaction: the result is then the error, and what the transaction did is undone.
\<close>

fun addAll :: "(nat \<Rightarrow> bool) \<Rightarrow> nat \<Rightarrow> survey list \<Rightarrow> survey list \<Rightarrow> js_error + survey list" where
  "addAll ok i [] store = Inr store"
| "addAll ok i (s # ss) store =
     (case (if ok i then store_add s store else Inl UnknownError) of
        Inr store' \<Rightarrow> addAll ok (Suc i) ss store'
      | Inl error \<Rightarrow> Inl error)"

subsection \<open>localStorage\<close>

definition localStorage_setItem :: "bool \<Rightarrow> survey list json_text \<Rightarrow> world \<Rightarrow> js_error + world" where
  "localStorage_setItem ok v w =
     (if ok then Inr (w\<lparr>pserSurveys := Some v\<rparr>) else Inl QuotaExceededError)"

text \<open>\<^verbatim>\<open>saveToLocalStorage\<close>: the \<^verbatim>\<open>catch\<close> branch alerts and stores nothing.\<close>

definition saveToLocalStorage :: "bool \<Rightarrow> PSERSurvey \<Rightarrow> world \<Rightarrow> world" where
  "saveToLocalStorage ok this w =
     (case localStorage_setItem ok (JSON_stringify (surveys this)) w of
        Inr w' \<Rightarrow> w'
      | Inl error \<Rightarrow> w)"

text \<open>
  \<^verbatim>\<open>loadFromLocalStorage\<close>: \<^verbatim>\<open>stored ? JSON.parse(stored) : []\<close> inside \<^verbatim>\<open>try\<close>; the
  \<^verbatim>\<open>catch\<close> branch sets the empty array.
\<close>

definition loadFromLocalStorage :: "PSERSurvey \<Rightarrow> world \<Rightarrow> PSERSurvey" where
  "loadFromLocalStorage this w =
     (case (case pserSurveys w of
              None \<Rightarrow> Inr []
            | Some stored \<Rightarrow> if truthy_text stored then JSON_parse stored else Inr []) of
        Inr xs \<Rightarrow> this\<lparr>surveys := xs\<rparr>
      | Inl error \<Rightarrow> this\<lparr>surveys := []\<rparr>)"

subsection \<open>IndexedDB\<close>

text \<open>
  \<^verbatim>\<open>loadFromDatabase\<close>: without a handle, or when \<^verbatim>\<open>getAll\<close> fails, the list comes
  from localStorage; a non-empty result of \<^verbatim>\<open>getAll\<close> is mirrored to localStorage.
\<close>

definition loadFromDatabase :: "bool \<Rightarrow> bool \<Rightarrow> PSERSurvey \<Rightarrow> world \<Rightarrow> PSERSurvey \<times> world" where
  "loadFromDatabase getAll_ok setItem_ok' this w =
     (if database this = None then (loadFromLocalStorage this w, w)
      else if getAll_ok then
        (let this' = this\<lparr>surveys := objectStore w\<rparr> in
         if length (surveys this') > 0 then (this', saveToLocalStorage setItem_ok' this' w)
         else (this', w))
      else (loadFromLocalStorage this w, w))"

text \<open>
  What \<^verbatim>\<open>indexedDB.open\<close> does: it throws at the call (access to the storage is
  refused), or its request fires \<^verbatim>\<open>onerror\<close>, or it fires \<^verbatim>\<open>onsuccess\<close>.
\<close>

datatype open_outcome = OpenThrows | OpenError | OpenSuccess

text \<open>
  \<^verbatim>\<open>initDatabase\<close>.  The call of \<^verbatim>\<open>indexedDB.open\<close> stands in the promise's executor
  with no \<^verbatim>\<open>try\<close> around it: when it throws, the promise is rejected (\<open>Inl\<close>), no handler
  has been installed and nothing is assigned or loaded.  \<^verbatim>\<open>request.onerror\<close> loads from
  localStorage and leaves \<^verbatim>\<open>this.database\<close> null; \<^verbatim>\<open>request.onsuccess\<close> stores the
  handle and loads from the database.  The upgrade handler creates the object store when
  it is missing and touches no record.
\<close>

definition initDatabase ::
  "open_outcome \<Rightarrow> bool \<Rightarrow> bool \<Rightarrow> PSERSurvey \<Rightarrow> world \<Rightarrow> js_error + PSERSurvey \<times> world" where
  "initDatabase request getAll_ok setItem_ok' this w =
     (case request of
        OpenThrows \<Rightarrow> Inl SecurityError
      | OpenError \<Rightarrow> Inr (loadFromLocalStorage this w, w)
      | OpenSuccess \<Rightarrow>
          Inr (loadFromDatabase getAll_ok setItem_ok' (this\<lparr>database := Some IDBDatabase\<rparr>) w))"

text \<open>
  \<^verbatim>\<open>saveToDatabase\<close>: without a handle, localStorage only.  Otherwise the store is
  cleared and every record added in one transaction; when the \<^verbatim>\<open>clear\<close> or an \<^verbatim>\<open>add\<close>
  fails the transaction is aborted and the object store keeps what it held before.  The
  \<^verbatim>\<open>then\<close> branch, the \<^verbatim>\<open>catch\<close> branch, the \<^verbatim>\<open>clearRequest.onerror\<close> handler and the
  \<^verbatim>\<open>transaction.onerror\<close> handler each end with \<^verbatim>\<open>saveToLocalStorage\<close> on the same
  list.
\<close>

definition saveToDatabase :: "io \<Rightarrow> PSERSurvey \<Rightarrow> world \<Rightarrow> world" where
  "saveToDatabase r this w =
     (if database this = None then saveToLocalStorage (setItem_ok r) this w
      else if clear_ok r then
        (case addAll (add_ok r) 0 (surveys this) [] of
           Inr store' \<Rightarrow> saveToLocalStorage (setItem_ok r) this (w\<lparr>objectStore := store'\<rparr>)
         | Inl error \<Rightarrow> saveToLocalStorage (setItem_ok r) this w)
      else saveToLocalStorage (setItem_ok r) this w)"

subsection \<open>Saving, editing and deleting\<close>

text \<open>
  The clock as \<^verbatim>\<open>getFormData\<close> reads it: \<^verbatim>\<open>Date.now().toString()\<close> and
  \<^verbatim>\<open>new Date().toISOString()\<close>.
\<close>

record clock =
  now :: string
  iso :: string

text \<open>\<^verbatim>\<open>if (this.currentEditId)\<close>: null and the empty string are falsy.\<close>

definition truthy_id :: "string option \<Rightarrow> bool" where
  "truthy_id v = (case v of None \<Rightarrow> False | Some e \<Rightarrow> e \<noteq> [])"

text \<open>
  \<^verbatim>\<open>getFormData\<close>: \<open>form\<close> holds the values read from the form fields; the id is
  \<^verbatim>\<open>this.currentEditId || Date.now().toString()\<close> and the timestamp is the clock's.
\<close>

definition getFormData :: "PSERSurvey \<Rightarrow> survey \<Rightarrow> clock \<Rightarrow> survey" where
  "getFormData this form c =
     form\<lparr>id' := (case currentEditId this of
                     None \<Rightarrow> now c
                   | Some e \<Rightarrow> if e \<noteq> [] then e else now c),
          timestamp := iso c\<rparr>"

text \<open>\<^verbatim>\<open>Array.prototype.findIndex\<close>: the first index that satisfies the test, or -1.\<close>

fun findIndex :: "('a \<Rightarrow> bool) \<Rightarrow> 'a list \<Rightarrow> int" where
  "findIndex P [] = - 1"
| "findIndex P (x # xs) =
     (if P x then 0 else (let i = findIndex P xs in if i = - 1 then - 1 else i + 1))"

text \<open>
  \<^verbatim>\<open>saveSurvey\<close>.  \<open>valid\<close> is the verdict of \<^verbatim>\<open>validateForm\<close> on the form fields.
  In edit mode the entry found under the edit id is overwritten; otherwise the record is
  pushed.  Then the list is persisted, and \<^verbatim>\<open>isNew\<close> leaves edit mode.
\<close>

definition saveSurvey ::
  "bool \<Rightarrow> bool \<Rightarrow> survey \<Rightarrow> clock \<Rightarrow> io \<Rightarrow> PSERSurvey \<Rightarrow> world \<Rightarrow> PSERSurvey \<times> world" where
  "saveSurvey isNew valid form c r this w =
     (if \<not> valid then (this, w)
      else
        (let surveyData = getFormData this form c;
             this1 =
               (if truthy_id (currentEditId this) then
                  (let index = findIndex (\<lambda>s. Some (id' s) = currentEditId this) (surveys this) in
                   if index \<noteq> - 1 then this\<lparr>surveys := (surveys this)[nat index := surveyData]\<rparr>
                   else this)
                else this\<lparr>surveys := surveys this @ [surveyData]\<rparr>);
             w1 = saveToDatabase r this1 w
         in (if isNew then this1\<lparr>currentEditId := None\<rparr> else this1, w1)))"

text \<open>\<^verbatim>\<open>editSurvey\<close> enters edit mode only for an id that is in the list.\<close>

definition editSurvey :: "string \<Rightarrow> PSERSurvey \<Rightarrow> PSERSurvey" where
  "editSurvey i this =
     (case find (\<lambda>s. id' s = i) (surveys this) of
        None \<Rightarrow> this
      | Some survey \<Rightarrow> this\<lparr>currentEditId := Some i\<rparr>)"

definition clearForm :: "PSERSurvey \<Rightarrow> PSERSurvey" where
  "clearForm this = this\<lparr>currentEditId := None\<rparr>"

text \<open>
  \<^verbatim>\<open>deleteSurvey\<close>: after the user confirms, the list is filtered, written to
  localStorage and persisted.  The search that redraws the result cards and the closing
  alert touch neither the object nor the stores; the same holds for the other handlers.
\<close>

definition deleteSurvey ::
  "bool \<Rightarrow> bool \<Rightarrow> io \<Rightarrow> string \<Rightarrow> PSERSurvey \<Rightarrow> world \<Rightarrow> PSERSurvey \<times> world" where
  "deleteSurvey confirm setItem_ok' r i this w =
     (if confirm then
        (let this' = this\<lparr>surveys := filter (\<lambda>s. id' s \<noteq> i) (surveys this)\<rparr>;
             w1 = saveToLocalStorage setItem_ok' this' w;
             w2 = saveToDatabase r this' w1
         in (this', w2))
      else (this, w))"

definition confirmClearAll ::
  "string \<Rightarrow> bool \<Rightarrow> io \<Rightarrow> PSERSurvey \<Rightarrow> world \<Rightarrow> PSERSurvey \<times> world" where
  "confirmClearAll password setItem_ok' r this w =
     (if password = ''1234'' then
        (let this' = this\<lparr>surveys := []\<rparr>;
             w1 = saveToLocalStorage setItem_ok' this' w;
             w2 = saveToDatabase r this' w1
         in (this', w2))
      else (this, w))"

subsection \<open>Restoring a backup\<close>

datatype file_event = NoFile | ReadError | Loaded "json json_text"

datatype restore_outcome = Ignored | ReadFailed | Rejected js_error | Cancelled | Restored

text \<open>
  The part of the \<^verbatim>\<open>try\<close> block of \<^verbatim>\<open>restoreBackup\<close> before the dialog: parse, then
  \<^verbatim>\<open>if (!backupData.surveys || !Array.isArray(backupData.surveys)) throw new Error(...)\<close>.
\<close>

definition backup_surveys :: "json json_text \<Rightarrow> js_error + survey list" where
  "backup_surveys content =
     (case JSON_parse content of
        Inl error \<Rightarrow> Inl error
      | Inr backupData \<Rightarrow>
          (case get_surveys backupData of
             Inl error \<Rightarrow> Inl error
           | Inr None \<Rightarrow> Inl InvalidBackup
           | Inr (Some v) \<Rightarrow>
               (if \<not> truthy v \<or> \<not> isArray v then Inl InvalidBackup
                else (case v of JArr xs \<Rightarrow> Inr xs | _ \<Rightarrow> Inl InvalidBackup))))"

text \<open>
  \<^verbatim>\<open>restoreBackup\<close>: the \<^verbatim>\<open>catch\<close> branch alerts and changes nothing; after the user
  confirms, the list is replaced and persisted.
\<close>

definition restoreBackup ::
  "file_event \<Rightarrow> bool \<Rightarrow> io \<Rightarrow> PSERSurvey \<Rightarrow> world \<Rightarrow> restore_outcome \<times> PSERSurvey \<times> world" where
  "restoreBackup ev confirm r this w =
     (case ev of
        NoFile \<Rightarrow> (Ignored, this, w)
      | ReadError \<Rightarrow> (ReadFailed, this, w)
      | Loaded content \<Rightarrow>
          (case backup_surveys content of
             Inl error \<Rightarrow> (Rejected error, this, w)
           | Inr xs \<Rightarrow>
               (if confirm then
                  (let this' = this\<lparr>surveys := xs\<rparr> in (Restored, this', saveToDatabase r this' w))
                else (Cancelled, this, w))))"

subsection \<open>Searching\<close>

text \<open>\<^verbatim>\<open>replace(/\D/g, '')\<close> keeps the characters 0 to 9.\<close>

definition isDigit :: "char \<Rightarrow> bool" where
  "isDigit c = (48 \<le> (of_char c :: nat) \<and> (of_char c :: nat) \<le> 57)"

definition digitsOnly :: "string \<Rightarrow> string" where
  "digitsOnly s = filter isDigit s"

text \<open>\<^verbatim>\<open>String.prototype.includes\<close>: \<open>includes' s t\<close> when \<open>t\<close> occurs in \<open>s\<close>.\<close>

fun startsWith :: "string \<Rightarrow> string \<Rightarrow> bool" where
  "startsWith s [] = True"
| "startsWith [] (c # t) = False"
| "startsWith (a # s) (c # t) = (a = c \<and> startsWith s t)"

fun includes' :: "string \<Rightarrow> string \<Rightarrow> bool" where
  "includes' [] t = (t = [])"
| "includes' (a # s) t = (startsWith (a # s) t \<or> includes' s t)"

text \<open>
  A JavaScript number that \<^verbatim>\<open>parseInt\<close> can return: \<^verbatim>\<open>NaN\<close>, an integer that a
  double holds exactly, or an infinity.
\<close>

datatype js_number = NaN | Number int | PosInfinity | NegInfinity

text \<open>
  The Number value of a natural number: the nearest double, ties to the even
  significand of 53 bits; \<open>None\<close> when it rounds to infinity.
\<close>

fun bitLength :: "nat \<Rightarrow> nat" where
  "bitLength n = (if n = 0 then 0 else Suc (bitLength (n div 2)))"

definition toDouble :: "nat \<Rightarrow> nat option" where
  "toDouble n =
     (if bitLength n \<le> 53 then Some n
      else
        (let e = bitLength n - 53;
             q = n div 2 ^ e;
             rest = n mod 2 ^ e;
             half = 2 ^ (e - 1);
             q' = (if half < rest \<or> (rest = half \<and> odd q) then q + 1 else q)
         in if 2 ^ 1024 \<le> q' * 2 ^ e then None else Some (q' * 2 ^ e)))"

text \<open>
  \<^verbatim>\<open>parseInt\<close> with no radix: leading white space is skipped, a sign is read, a prefix
  0x or 0X selects radix 16, and the longest run of digits is the number, rounded to a
  double; no digit gives \<^verbatim>\<open>NaN\<close>.  The white space that is skipped is the language's
  white space and line terminators: tab, line feed, vertical tab, form feed, carriage
  return, space, no-break space, and U+1680, U+2000 to U+200A, U+2028, U+2029, U+202F,
  U+205F, U+3000, U+FEFF.  A character of the model is a code unit below 256, so only the
  first seven occur in its strings.
\<close>

definition isWhiteSpace :: "char \<Rightarrow> bool" where
  "isWhiteSpace c =
     ((of_char c :: nat) \<in> {9, 10, 11, 12, 13, 32, 160, 5760, 8232, 8233, 8239, 8287, 12288, 65279}
      \<or> (8192 \<le> (of_char c :: nat) \<and> (of_char c :: nat) \<le> 8202))"

definition digitValue :: "char \<Rightarrow> nat option" where
  "digitValue c =
     (let n = (of_char c :: nat) in
      if 48 \<le> n \<and> n \<le> 57 then Some (n - 48)
      else if 97 \<le> n \<and> n \<le> 102 then Some (n - 87)
      else if 65 \<le> n \<and> n \<le> 70 then Some (n - 55)
      else None)"

definition isRadixDigit :: "nat \<Rightarrow> char \<Rightarrow> bool" where
  "isRadixDigit R c = (case digitValue c of None \<Rightarrow> False | Some d \<Rightarrow> d < R)"

definition toNumber :: "nat \<Rightarrow> string \<Rightarrow> nat" where
  "toNumber R z = foldl (\<lambda>n c. n * R + (case digitValue c of None \<Rightarrow> 0 | Some d \<Rightarrow> d)) 0 z"

definition parseInt :: "string \<Rightarrow> js_number" where
  "parseInt inputString =
     (let S = dropWhile isWhiteSpace inputString;
          sign = (if take 1 S = ''-'' then - 1 else 1 :: int);
          S1 = (if take 1 S = ''+'' \<or> take 1 S = ''-'' then drop 1 S else S);
          R = (if take 2 S1 = ''0x'' \<or> take 2 S1 = ''0X'' then 16 else 10);
          S2 = (if R = 16 then drop 2 S1 else S1);
          Z = takeWhile (isRadixDigit R) S2
      in if Z = [] then NaN
         else (case toDouble (toNumber R Z) of
                 Some mathInt \<Rightarrow> Number (sign * int mathInt)
               | None \<Rightarrow> if sign = 1 then PosInfinity else NegInfinity))"

text \<open>An input element that is missing (\<open>None\<close>) or empty has no value.\<close>

definition hasValue :: "string option \<Rightarrow> bool" where
  "hasValue inp = (case inp of None \<Rightarrow> False | Some v \<Rightarrow> v \<noteq> [])"

definition value_of :: "string option \<Rightarrow> string" where
  "value_of inp = (case inp of None \<Rightarrow> [] | Some v \<Rightarrow> v)"

text \<open>
  \<^verbatim>\<open>combinedResults.filter((survey, index, self) => index === self.findIndex(s => s.id === survey.id))\<close>
\<close>

definition firstById :: "survey list \<Rightarrow> survey list" where
  "firstById self =
     map fst (filter (\<lambda>(survey, index). int index = findIndex (\<lambda>s. id' s = id' survey) self)
                (zip self [0 ..< length self]))"

text \<open>
  \<^verbatim>\<open>searchSurvey\<close>: the list handed to \<^verbatim>\<open>displaySearchResults\<close>, or \<open>None\<close> when both
  inputs are empty and the method returns after its alert.
\<close>

definition searchSurvey :: "string option \<Rightarrow> string option \<Rightarrow> PSERSurvey \<Rightarrow> survey list option" where
  "searchSurvey houseNumberInput cnicInput this =
     (if \<not> hasValue houseNumberInput \<and> \<not> hasValue cnicInput then None
      else
        (let results0 =
               (if hasValue houseNumberInput then
                  filter (\<lambda>survey. Number (houseNumber survey) = parseInt (value_of houseNumberInput))
                    (surveys this)
                else []);
             results =
               (if hasValue cnicInput then
                  (let searchCnic = digitsOnly (value_of cnicInput);
                       cnicResults =
                         filter (\<lambda>survey. includes' (digitsOnly (hohCnic survey)) searchCnic)
                           (surveys this)
                   in if length results0 > 0 \<and> length cnicResults > 0
                      then firstById (results0 @ cnicResults)
                      else if length cnicResults > 0 then cnicResults
                      else results0)
                else results0)
         in Some results))"

subsection \<open>The words of the specification\<close>

text \<open>
  ``The CNIC reduced to digits only'': the characters 0 to 9 of a string, in their
  order.
\<close>

fun digits_of :: "string \<Rightarrow> string" where
  "digits_of [] = []"
| "digits_of (c # s) = (if c \<in> set ''0123456789'' then c # digits_of s else digits_of s)"

text \<open>The number that a string of decimal digits denotes, by place value.\<close>

definition decimal :: "string \<Rightarrow> nat" where
  "decimal s = (\<Sum>i<length s. (of_char (s ! i) - 48) * 10 ^ (length s - Suc i))"

subsection \<open>A session\<close>

text \<open>
  The handlers that \<^verbatim>\<open>bindEvents\<close>, \<^verbatim>\<open>setupBackupRestore\<close> and the result cards
  attach to the page, as events; a session runs them one after the other on the object
  and the world.
\<close>

datatype action =
    SaveSurvey bool bool survey clock io
  | EditSurvey string
  | ClearForm
  | DeleteSurvey bool bool io string
  | ConfirmClearAll string bool io
  | RestoreBackup file_event bool io

fun dispatch :: "action \<Rightarrow> PSERSurvey \<times> world \<Rightarrow> PSERSurvey \<times> world" where
  "dispatch (SaveSurvey isNew valid form c r) (this, w) = saveSurvey isNew valid form c r this w"
| "dispatch (EditSurvey i) (this, w) = (editSurvey i this, w)"
| "dispatch ClearForm (this, w) = (clearForm this, w)"
| "dispatch (DeleteSurvey confirm ok r i) (this, w) = deleteSurvey confirm ok r i this w"
| "dispatch (ConfirmClearAll password ok r) (this, w) = confirmClearAll password ok r this w"
| "dispatch (RestoreBackup ev confirm r) (this, w) = snd (restoreBackup ev confirm r this w)"

definition session :: "action list \<Rightarrow> PSERSurvey \<times> world \<Rightarrow> PSERSurvey \<times> world" where
  "session acts s = foldl (\<lambda>s a. dispatch a s) s acts"

subsection \<open>Concrete records, worlds and outcomes\<close>

definition sample :: survey where
  "sample = \<lparr>id' = ''1'', blockCode = ''162030416'', houseNumber = 5, familiesCount = 1,
     xFamily = ''no'', houseCode = ''5'', respondentName = ''Amna'', hohName = ''Bilal'',
     hohFatherName = ''Dawood'', hohCnic = ''33301-1234567-1'', maleMembers = 1,
     femaleMembers = 1, othersMembers = 0, totalMembers = 2, registerNumber = None,
     location = None, photo = None, signature = None,
     livestock = \<lparr>buffalo = 0, cow = 0, goat = 0, sheep = 0\<rparr>,
     transport = \<lparr>motorcycle = 0, car = 0, van = 0, scooter = 0\<rparr>,
     appliances = \<lparr>solar = 0, ac = 0, geyser = 0, washingMachine = 0, fridge = 0\<rparr>,
     contactNumber = ''0345-1234567'', timestamp = ''2025-01-01T00:00:00.000Z''\<rparr>"

definition house101 :: survey where
  "house101 = sample\<lparr>id' := ''2'', houseNumber := 101, hohCnic := ''35202-7654321-9''\<rparr>"

definition house7 :: survey where
  "house7 = sample\<lparr>id' := ''3'', houseNumber := 7, hohCnic := ''61101-9912345-3''\<rparr>"

definition all_ok :: io where
  "all_ok = \<lparr>clear_ok = True, add_ok = (\<lambda>i. True), setItem_ok = True\<rparr>"

definition empty_world :: world where
  "empty_world = \<lparr>objectStore = [], pserSurveys = None\<rparr>"

definition tick :: clock where
  "tick = \<lparr>now = ''1700000000000'', iso = ''2023-11-14T22:13:20.000Z''\<rparr>"

section \<open>Properties\<close>

subsection \<open>Library functions\<close>

lemma findIndex_ge: "- 1 \<le> findIndex P xs"
  by (induction xs) (auto simp: Let_def)

lemma findIndex_none: "findIndex P xs = - 1 \<longleftrightarrow> (\<forall>x\<in>set xs. \<not> P x)"
proof (induction xs)
  case Nil
  show ?case by simp
next
  case (Cons x xs)
  have "- 1 \<le> findIndex P xs" by (rule findIndex_ge)
  then have "findIndex P xs + 1 \<noteq> - 1" by arith
  with Cons show ?case by (auto simp: Let_def)
qed

lemma findIndex_found:
  assumes "\<exists>x\<in>set xs. P x"
  shows "0 \<le> findIndex P xs \<and> nat (findIndex P xs) < length xs
         \<and> P (xs ! nat (findIndex P xs))
         \<and> (\<forall>j < nat (findIndex P xs). \<not> P (xs ! j))"
  using assms
proof (induction xs)
  case Nil
  then show ?case by simp
next
  case (Cons x xs)
  show ?case
  proof (cases "P x")
    case True
    then show ?thesis by simp
  next
    case False
    with Cons.prems have ex: "\<exists>y\<in>set xs. P y" by auto
    from Cons.IH [OF ex] have ih: "0 \<le> findIndex P xs" "nat (findIndex P xs) < length xs"
      "P (xs ! nat (findIndex P xs))" "\<forall>j < nat (findIndex P xs). \<not> P (xs ! j)" by auto
    from ih(1) have ne: "findIndex P xs \<noteq> - 1" by arith
    have eq: "findIndex P (x # xs) = findIndex P xs + 1" using False ne by (simp add: Let_def)
    have n: "nat (findIndex P xs + 1) = Suc (nat (findIndex P xs))" using ih(1) by arith
    show ?thesis
      unfolding eq n using ih False by (auto simp: nth_Cons split: nat.splits)
  qed
qed

lemma startsWith_iff: "startsWith s t \<longleftrightarrow> (\<exists>v. s = t @ v)"
  by (induction s t rule: startsWith.induct) auto

lemma includes_iff: "includes' s t \<longleftrightarrow> (\<exists>u v. s = u @ t @ v)"
proof (induction s)
  case Nil
  show ?case by auto
next
  case (Cons a s)
  show ?case
  proof
    assume "includes' (a # s) t"
    then consider "startsWith (a # s) t" | "includes' s t" by auto
    then show "\<exists>u v. a # s = u @ t @ v"
    proof cases
      case 1
      then obtain v where "a # s = t @ v" by (auto simp: startsWith_iff)
      then have "a # s = [] @ t @ v" by simp
      then show ?thesis by blast
    next
      case 2
      with Cons obtain u v where "s = u @ t @ v" by auto
      then have "a # s = (a # u) @ t @ v" by simp
      then show ?thesis by blast
    qed
  next
    assume "\<exists>u v. a # s = u @ t @ v"
    then obtain u v where uv: "a # s = u @ t @ v" by blast
    show "includes' (a # s) t"
    proof (cases u)
      case Nil
      with uv have "startsWith (a # s) t" by (auto simp: startsWith_iff)
      then show ?thesis by simp
    next
      case (Cons b u')
      with uv have "s = u' @ t @ v" by simp
      with Cons.IH have "includes' s t" by blast
      then show ?thesis by simp
    qed
  qed
qed

subsection \<open>Digits and numbers\<close>

text \<open>The test of \<^verbatim>\<open>\D\<close> and the reduction to digits are the specification's.\<close>

lemma isDigit_iff: "isDigit c \<longleftrightarrow> c \<in> set ''0123456789''"
proof
  assume "isDigit c"
  then have "48 \<le> (of_char c :: nat)" "(of_char c :: nat) \<le> 57"
    by (simp_all add: isDigit_def)
  then have "(of_char c :: nat) = 48 \<or> (of_char c :: nat) = 49 \<or> (of_char c :: nat) = 50
      \<or> (of_char c :: nat) = 51 \<or> (of_char c :: nat) = 52 \<or> (of_char c :: nat) = 53
      \<or> (of_char c :: nat) = 54 \<or> (of_char c :: nat) = 55 \<or> (of_char c :: nat) = 56
      \<or> (of_char c :: nat) = 57"
    by arith
  then have "(of_char c :: nat) = of_char CHR ''0'' \<or> (of_char c :: nat) = of_char CHR ''1''
      \<or> (of_char c :: nat) = of_char CHR ''2'' \<or> (of_char c :: nat) = of_char CHR ''3''
      \<or> (of_char c :: nat) = of_char CHR ''4'' \<or> (of_char c :: nat) = of_char CHR ''5''
      \<or> (of_char c :: nat) = of_char CHR ''6'' \<or> (of_char c :: nat) = of_char CHR ''7''
      \<or> (of_char c :: nat) = of_char CHR ''8'' \<or> (of_char c :: nat) = of_char CHR ''9''"
    by simp
  then have "c = CHR ''0'' \<or> c = CHR ''1'' \<or> c = CHR ''2'' \<or> c = CHR ''3'' \<or> c = CHR ''4''
      \<or> c = CHR ''5'' \<or> c = CHR ''6'' \<or> c = CHR ''7'' \<or> c = CHR ''8'' \<or> c = CHR ''9''"
    unfolding of_char_eq_iff .
  then show "c \<in> set ''0123456789''" by auto
next
  assume "c \<in> set ''0123456789''"
  then show "isDigit c" by (auto simp: isDigit_def)
qed

lemma digitsOnly_digits_of: "digitsOnly s = digits_of s"
  by (induction s) (simp_all add: digitsOnly_def isDigit_iff del: set_simps)

text \<open>
  A natural number below \<open>2 ^ 53\<close> is its own double, and \<^verbatim>\<open>parseInt\<close> reads a string
  of decimal digits that denotes one as that number.
\<close>

lemma bitLength_le: "n < 2 ^ k \<Longrightarrow> bitLength n \<le> k"
proof (induction k arbitrary: n)
  case 0
  then show ?case by simp
next
  case (Suc k)
  show ?case
  proof (cases "n = 0")
    case True
    then show ?thesis by simp
  next
    case False
    from Suc.prems have "n div 2 < 2 ^ k" by simp
    then have "bitLength (n div 2) \<le> k" by (rule Suc.IH)
    with False show ?thesis by (subst bitLength.simps) simp
  qed
qed

lemma toDouble_exact: "n < 2 ^ 53 \<Longrightarrow> toDouble n = Some n"
  using bitLength_le [of n 53] by (simp add: toDouble_def)

lemma toNumber_snoc:
  "toNumber R (s @ [c]) = toNumber R s * R + (case digitValue c of None \<Rightarrow> 0 | Some d \<Rightarrow> d)"
  by (simp add: toNumber_def)

lemma digitValue_digit: "isDigit c \<Longrightarrow> digitValue c = Some (of_char c - 48)"
  by (simp add: isDigit_def digitValue_def Let_def)

lemma decimal_snoc: "decimal (s @ [c]) = decimal s * 10 + (of_char c - 48)"
proof -
  have "(\<Sum>i<length s. (of_char ((s @ [c]) ! i) - 48) * 10 ^ (length (s @ [c]) - Suc i))
      = (\<Sum>i<length s. ((of_char (s ! i) - 48) * 10 ^ (length s - Suc i)) * (10 :: nat))"
  proof (rule sum.cong)
    fix i assume "i \<in> {..<length s}"
    then have i: "i < length s" by simp
    then have "length (s @ [c]) - Suc i = Suc (length s - Suc i)" by simp
    with i show "(of_char ((s @ [c]) ! i) - 48) * 10 ^ (length (s @ [c]) - Suc i)
        = ((of_char (s ! i) - 48) * 10 ^ (length s - Suc i)) * (10 :: nat)"
      by (simp add: nth_append mult_ac)
  qed simp
  also have "\<dots> = decimal s * 10"
    by (simp add: decimal_def sum_distrib_right)
  finally show ?thesis
    by (simp add: decimal_def)
qed

lemma toNumber_decimal: "\<forall>c\<in>set s. isDigit c \<Longrightarrow> toNumber 10 s = decimal s"
proof (induction s rule: rev_induct)
  case Nil
  show ?case by (simp add: toNumber_def decimal_def)
next
  case (snoc c s)
  then show ?case
    by (simp add: toNumber_snoc decimal_snoc digitValue_digit)
qed

lemma parseInt_decimal:
  assumes "s \<noteq> []" "\<forall>c\<in>set s. isDigit c" "decimal s < 2 ^ 53"
  shows "parseInt s = Number (int (decimal s))"
proof -
  have no: "\<And>c. \<not> isDigit c \<Longrightarrow> c \<notin> set s" using assms(2) by auto
  have hd: "isDigit (hd s)" using assms(1,2) by simp
  then have "\<not> isWhiteSpace (hd s)" by (auto simp: isDigit_def isWhiteSpace_def)
  then have S: "dropWhile isWhiteSpace s = s" using assms(1) by (cases s) simp_all
  have "CHR ''-'' \<notin> set s" "CHR ''+'' \<notin> set s" "CHR ''x'' \<notin> set s" "CHR ''X'' \<notin> set s"
    by (rule no, simp add: isDigit_def)+
  then have out: "CHR ''-'' \<notin> set (take 1 s)" "CHR ''+'' \<notin> set (take 1 s)"
    "CHR ''x'' \<notin> set (take 2 s)" "CHR ''X'' \<notin> set (take 2 s)"
    by (auto dest: in_set_takeD)
  have t1: "take 1 s \<noteq> ''-''" "take 1 s \<noteq> ''+''" using out(1,2) by auto
  have t2: "take 2 s \<noteq> ''0x''" "take 2 s \<noteq> ''0X''" using out(3,4) by auto
  have "\<forall>c\<in>set s. isRadixDigit 10 c"
    using assms(2) by (auto simp: isRadixDigit_def digitValue_digit isDigit_def)
  then have Z: "takeWhile (isRadixDigit 10) s = s" by simp
  have n: "toNumber 10 s = decimal s" using assms(2) by (rule toNumber_decimal)
  have d: "toDouble (decimal s) = Some (decimal s)" using assms(3) by (rule toDouble_exact)
  show ?thesis
    unfolding parseInt_def Let_def S
    using t1 t2 assms(1) by (simp add: Z n d)
qed

text \<open>
  Beyond \<open>2 ^ 53\<close> the number read is the nearest double; white space, a sign and a
  trailing rest are dropped; the prefix 0x reads hexadecimal; no digit reads as
  \<^verbatim>\<open>NaN\<close>.
\<close>

lemma parseInt_examples:
  "parseInt ''9007199254740993'' = Number 9007199254740992"
  "parseInt ''9007199254740995'' = Number 9007199254740996"
  "parseInt (CHR 0xA0 # '' -101abc'') = Number (- 101)"
  "parseInt ''0x1F'' = Number 31"
  "parseInt ''12.5'' = Number 12"
  "parseInt ''abc'' = NaN"
  by (simp_all add: parseInt_def isWhiteSpace_def isRadixDigit_def digitValue_def toNumber_def
      toDouble_def Let_def)

subsection \<open>The object store\<close>

text \<open>When every \<^verbatim>\<open>add\<close> resolved, the store holds what it held plus the list.\<close>

lemma addAll_mset:
  "addAll ok i xs store = Inr store' \<Longrightarrow> mset store' = mset store + mset xs"
proof (induction xs arbitrary: i store)
  case Nil
  then show ?case by simp
next
  case (Cons s ss)
  then show ?case
    by (auto simp: store_add_def split: if_splits)
qed

text \<open>Every \<^verbatim>\<open>add\<close> resolves when the ids are new and distinct and no request fails.\<close>

lemma addAll_succeeds:
  "distinct (map id' xs) \<Longrightarrow> set (map id' xs) \<inter> set (map id' store) = {} \<Longrightarrow> (\<forall>k. ok k)
   \<Longrightarrow> \<exists>store'. addAll ok i xs store = Inr store'"
proof (induction xs arbitrary: i store)
  case Nil
  then show ?case by simp
next
  case (Cons s ss)
  have "set (map id' ss) \<inter> set (map id' (insort_key id' s store)) = {}"
    using Cons.prems by (auto simp: set_insort_key)
  with Cons show ?case
    by (auto simp: store_add_def)
qed

text \<open>An id that occurs twice makes the second \<^verbatim>\<open>add\<close> fail.\<close>

lemma addAll_repeated_id:
  "\<not> distinct (map id' xs) \<Longrightarrow> \<exists>e. addAll ok i xs store = Inl e"
proof -
  have keys: "\<And>i store store'. addAll ok i xs store = Inr store'
      \<Longrightarrow> distinct (map id' xs) \<and> set (map id' xs) \<inter> set (map id' store) = {}"
  proof (induction xs)
    case Nil
    then show ?case by simp
  next
    case (Cons s ss)
    from Cons.prems have new: "id' s \<notin> set (map id' store)"
      and rest: "addAll ok (Suc i) ss (insort_key id' s store) = Inr store'"
      by (auto simp: store_add_def split: if_splits)
    from Cons.IH [OF rest] new show ?case
      by (auto simp: set_insort_key)
  qed
  assume "\<not> distinct (map id' xs)"
  with keys [of i store] show ?thesis
    by (cases "addAll ok i xs store") auto
qed

text \<open>The store stays in key order.\<close>

lemma addAll_sorted:
  "sorted (map id' store) \<Longrightarrow> addAll ok i xs store = Inr store' \<Longrightarrow> sorted (map id' store')"
proof (induction xs arbitrary: i store)
  case Nil
  then show ?case by simp
next
  case (Cons s ss)
  from Cons.prems(2) have rest: "addAll ok (Suc i) ss (insort_key id' s store) = Inr store'"
    by (auto simp: store_add_def split: if_splits)
  have "sorted (map id' (insort_key id' s store))"
    using Cons.prems(1) by (simp add: sorted_insort_key)
  then show ?case using rest by (rule Cons.IH)
qed

subsection \<open>Writing the two stores\<close>

lemma saveToLocalStorage_ok:
  "saveToLocalStorage True this w = w\<lparr>pserSurveys := Some (JSON_stringify (surveys this))\<rparr>"
  by (simp add: saveToLocalStorage_def localStorage_setItem_def)

lemma saveToLocalStorage_failed: "saveToLocalStorage False this w = w"
  by (simp add: saveToLocalStorage_def localStorage_setItem_def)

lemma saveToLocalStorage_objectStore:
  "objectStore (saveToLocalStorage ok this w) = objectStore w"
  by (cases ok) (simp_all add: saveToLocalStorage_ok saveToLocalStorage_failed)

text \<open>Every path through \<^verbatim>\<open>saveToDatabase\<close> ends with the write to localStorage.\<close>

lemma saveToDatabase_ends_with_mirror:
  "\<exists>w'. pserSurveys w' = pserSurveys w
        \<and> saveToDatabase r this w = saveToLocalStorage (setItem_ok r) this w'"
proof (cases "database this = None \<or> \<not> clear_ok r")
  case True
  then have "saveToDatabase r this w = saveToLocalStorage (setItem_ok r) this w"
    by (auto simp: saveToDatabase_def)
  then show ?thesis by blast
next
  case False
  show ?thesis
  proof (cases "addAll (add_ok r) 0 (surveys this) []")
    case (Inl error)
    with False have "saveToDatabase r this w = saveToLocalStorage (setItem_ok r) this w"
      by (auto simp: saveToDatabase_def)
    then show ?thesis by blast
  next
    case (Inr store')
    with False have "saveToDatabase r this w
        = saveToLocalStorage (setItem_ok r) this (w\<lparr>objectStore := store'\<rparr>)"
      by (auto simp: saveToDatabase_def)
    moreover have "pserSurveys (w\<lparr>objectStore := store'\<rparr>) = pserSurveys w" by simp
    ultimately show ?thesis by blast
  qed
qed

lemma saveToDatabase_pserSurveys:
  "setItem_ok r \<Longrightarrow> pserSurveys (saveToDatabase r this w) = Some (JSON_stringify (surveys this))"
  using saveToDatabase_ends_with_mirror [of w r this]
  by (auto simp: saveToLocalStorage_ok)


lemma saveToDatabase_objectStore:
  assumes "database this \<noteq> None" "clear_ok r" "addAll (add_ok r) 0 (surveys this) [] = Inr store'"
  shows "objectStore (saveToDatabase r this w) = store'"
  using assms by (auto simp: saveToDatabase_def saveToLocalStorage_objectStore)

text \<open>An aborted transaction, like a missing handle, leaves the object store as it was.\<close>

lemma saveToDatabase_aborted:
  assumes "database this = None \<or> \<not> clear_ok r
           \<or> (\<exists>e. addAll (add_ok r) 0 (surveys this) [] = Inl e)"
  shows "objectStore (saveToDatabase r this w) = objectStore w"
  using assms by (auto simp: saveToDatabase_def saveToLocalStorage_objectStore)

lemma saveToDatabase_no_handle:
  "database this = None \<Longrightarrow>
   saveToDatabase r this w
     = (if setItem_ok r then w\<lparr>pserSurveys := Some (JSON_stringify (surveys this))\<rparr> else w)"
  by (simp add: saveToDatabase_def saveToLocalStorage_ok saveToLocalStorage_failed)

lemma loadFromLocalStorage_stringified:
  "pserSurveys w = Some (JSON_stringify xs) \<Longrightarrow> surveys (loadFromLocalStorage this w) = xs"
  by (simp add: loadFromLocalStorage_def JSON_stringify_def)


text \<open>No handler assigns \<^verbatim>\<open>this.database\<close>.\<close>

lemma dispatch_database: "database (fst (dispatch a s)) = database (fst s)"
proof (cases s)
  case (Pair this w)
  show ?thesis
    unfolding Pair
    by (cases a)
      (auto simp: saveSurvey_def editSurvey_def clearForm_def deleteSurvey_def confirmClearAll_def
        restoreBackup_def Let_def split: option.splits file_event.splits sum.splits)
qed

lemma session_database: "database (fst (session acts s)) = database (fst s)"
  unfolding session_def
  by (induction acts arbitrary: s) (simp_all add: dispatch_database)

subsection \<open>Backup files\<close>

lemma backup_surveys_Inr:
  "backup_surveys content = Inr xs \<longleftrightarrow>
     (\<exists>kvs. content = Stringified (JObj kvs) \<and> map_of kvs ''surveys'' = Some (JArr xs))"
proof (cases content)
  case (Unparseable s)
  then show ?thesis by (simp add: backup_surveys_def)
next
  case (Stringified v)
  show ?thesis
  proof (cases v)
    case (JObj kvs)
    with Stringified show ?thesis
      by (auto simp: backup_surveys_def split: option.splits json.splits)
  qed (use Stringified in \<open>simp_all add: backup_surveys_def\<close>)
qed

subsection \<open>Saving a record\<close>

lemma filter_update_same:
  "i < length xs \<Longrightarrow> P (xs ! i) = P x \<Longrightarrow>
   length (filter P (xs[i := x])) = length (filter P xs)"
  by (induction xs arbitrary: i) (auto split: nat.splits)

lemma findIndex_unique:
  "i < length xs \<Longrightarrow> P (xs ! i) \<Longrightarrow> \<forall>j<i. \<not> P (xs ! j) \<Longrightarrow> findIndex P xs = int i"
proof (induction xs arbitrary: i)
  case Nil
  then show ?case by simp
next
  case (Cons x xs)
  show ?case
  proof (cases i)
    case 0
    with Cons.prems show ?thesis by simp
  next
    case (Suc k)
    with Cons.prems have k: "k < length xs" "P (xs ! k)" "\<forall>j<k. \<not> P (xs ! j)" and nx: "\<not> P x"
      by auto
    from Cons.IH [OF k] have "findIndex P xs = int k" .
    with nx Suc show ?thesis by (simp add: Let_def)
  qed
qed

lemma getFormData_id_edit:
  "truthy_id (currentEditId this) \<Longrightarrow> Some (id' (getFormData this form c)) = currentEditId this"
  by (auto simp: getFormData_def truthy_id_def split: option.splits)

lemma getFormData_id_new:
  "\<not> truthy_id (currentEditId this) \<Longrightarrow> id' (getFormData this form c) = now c"
  by (auto simp: getFormData_def truthy_id_def split: option.splits)

lemma saveSurvey_edit_found:
  assumes "valid" "truthy_id (currentEditId this)"
      and "\<exists>s\<in>set (surveys this). Some (id' s) = currentEditId this"
  shows "surveys (fst (saveSurvey isNew valid form c r this w))
     = (surveys this)[nat (findIndex (\<lambda>s. Some (id' s) = currentEditId this) (surveys this))
          := getFormData this form c]"
proof -
  have "0 \<le> findIndex (\<lambda>s. Some (id' s) = currentEditId this) (surveys this)"
    using findIndex_found [OF assms(3)] by simp
  then have "findIndex (\<lambda>s. Some (id' s) = currentEditId this) (surveys this) \<noteq> - 1" by arith
  then show ?thesis
    using assms(1,2) by (simp add: saveSurvey_def Let_def)
qed

lemma saveSurvey_new:
  assumes "valid" "\<not> truthy_id (currentEditId this)"
  shows "surveys (fst (saveSurvey isNew valid form c r this w))
     = surveys this @ [getFormData this form c]"
  using assms by (simp add: saveSurvey_def Let_def)

subsection \<open>Reading the fallback store\<close>

text \<open>
  Claim C8.  \<^verbatim>\<open>loadFromLocalStorage\<close> sets the empty list, and raises nothing, whenever
  the \<^verbatim>\<open>pserSurveys\<close> item is absent or holds text that \<^verbatim>\<open>JSON.parse\<close> rejects; the
  rest of the object is untouched.
\<close>

theorem loadFromLocalStorage_absent_or_malformed:
  assumes "pserSurveys w = None \<or> (\<exists>s. pserSurveys w = Some (Unparseable s))"
  shows "loadFromLocalStorage this w = this\<lparr>surveys := []\<rparr>"
  using assms by (auto simp: loadFromLocalStorage_def)

theorem loadFromLocalStorage_absent_or_malformed_witness:
  "loadFromLocalStorage \<lparr>database = None, surveys = [sample], currentEditId = None\<rparr> empty_world
     = \<lparr>database = None, surveys = [], currentEditId = None\<rparr>
   \<and> surveys (loadFromLocalStorage \<lparr>database = None, surveys = [sample], currentEditId = None\<rparr>
        \<lparr>objectStore = [], pserSurveys = Some (Unparseable ''[{id:'')\<rparr>) = []"
proof -
  have a: "pserSurveys empty_world = None \<or> (\<exists>s. pserSurveys empty_world = Some (Unparseable s))"
    by (simp add: empty_world_def)
  have b: "pserSurveys \<lparr>objectStore = [], pserSurveys = Some (Unparseable ''[{id:'')\<rparr> = None
     \<or> (\<exists>s. pserSurveys \<lparr>objectStore = [], pserSurveys = Some (Unparseable ''[{id:'')\<rparr>
            = Some (Unparseable s))"
    by simp
  show ?thesis
    using loadFromLocalStorage_absent_or_malformed [OF a]
      loadFromLocalStorage_absent_or_malformed [OF b]
    by simp
qed

subsection \<open>Saving in edit mode under an id that is gone\<close>

text \<open>
  Claim C10.  When \<^verbatim>\<open>saveSurvey\<close> runs in edit mode and no record of the list has the
  edit id, the list is left as it was: the record built from the form is not in it
  afterwards.
\<close>

theorem saveSurvey_edit_id_missing:
  assumes "truthy_id (currentEditId this)"
      and "\<forall>s\<in>set (surveys this). Some (id' s) \<noteq> currentEditId this"
  shows "surveys (fst (saveSurvey isNew valid form c r this w)) = surveys this
         \<and> getFormData this form c \<notin> set (surveys (fst (saveSurvey isNew valid form c r this w)))"
proof -
  have idx: "findIndex (\<lambda>s. Some (id' s) = currentEditId this) (surveys this) = - 1"
    using assms(2) by (simp add: findIndex_none)
  have same: "surveys (fst (saveSurvey isNew valid form c r this w)) = surveys this"
    using assms(1) idx by (simp add: saveSurvey_def Let_def)
  have "Some (id' (getFormData this form c)) = currentEditId this"
    using assms(1) by (auto simp: getFormData_def truthy_id_def split: option.splits)
  with assms(2) have "getFormData this form c \<notin> set (surveys this)" by auto
  with same show ?thesis by simp
qed

theorem saveSurvey_edit_id_missing_witness:
  "surveys (fst (saveSurvey False True (sample\<lparr>totalMembers := 9\<rparr>) tick all_ok
      \<lparr>database = None, surveys = [sample], currentEditId = Some ''42''\<rparr> empty_world)) = [sample]"
proof -
  let ?obj = "\<lparr>database = None, surveys = [sample], currentEditId = Some ''42''\<rparr>"
  have a: "truthy_id (currentEditId ?obj)" by (simp add: truthy_id_def)
  have b: "\<forall>s\<in>set (surveys ?obj). Some (id' s) \<noteq> currentEditId ?obj"
    by (simp add: sample_def)
  show ?thesis
    using saveSurvey_edit_id_missing
      [OF a b, of False True "sample\<lparr>totalMembers := 9\<rparr>" tick all_ok empty_world]
    by simp
qed

subsection \<open>Deleting\<close>

text \<open>
  Claim C9.  Once the user has confirmed the dialog, \<^verbatim>\<open>deleteSurvey\<close> leaves exactly
  the records whose id differs from the given one, in their order, so no record with
  that id remains; and when no record has the id, the object is unchanged, whatever the
  user answers.
\<close>

theorem deleteSurvey_removes_or_noop:
  "surveys (fst (deleteSurvey True ok r i this w)) = filter (\<lambda>s. id' s \<noteq> i) (surveys this)
   \<and> (\<forall>s\<in>set (surveys (fst (deleteSurvey True ok r i this w))). id' s \<noteq> i)
   \<and> ((\<forall>s\<in>set (surveys this). id' s \<noteq> i) \<longrightarrow> fst (deleteSurvey confirm ok r i this w) = this)"
proof -
  have "(\<forall>s\<in>set (surveys this). id' s \<noteq> i) \<Longrightarrow> filter (\<lambda>s. id' s \<noteq> i) (surveys this) = surveys this"
    by (simp add: filter_id_conv)
  then show ?thesis
    by (auto simp: deleteSurvey_def Let_def)
qed

theorem deleteSurvey_removes_or_noop_witness:
  "surveys (fst (deleteSurvey True True all_ok ''2''
      \<lparr>database = None, surveys = [sample, sample\<lparr>id' := ''2''\<rparr>], currentEditId = None\<rparr> empty_world))
     = [sample]
   \<and> fst (deleteSurvey True True all_ok ''3''
      \<lparr>database = None, surveys = [sample, sample\<lparr>id' := ''2''\<rparr>], currentEditId = None\<rparr> empty_world)
     = \<lparr>database = None, surveys = [sample, sample\<lparr>id' := ''2''\<rparr>], currentEditId = None\<rparr>"
proof -
  let ?obj = "\<lparr>database = None, surveys = [sample, sample\<lparr>id' := ''2''\<rparr>], currentEditId = None\<rparr>"
  have b: "\<forall>s\<in>set (surveys ?obj). id' s \<noteq> ''3''" by (simp add: sample_def)
  show ?thesis
    using deleteSurvey_removes_or_noop [of True all_ok "''2''" ?obj empty_world True]
      deleteSurvey_removes_or_noop [of True all_ok "''3''" ?obj empty_world True] b
    by (simp add: sample_def)
qed

subsection \<open>Restoring a malformed backup\<close>

text \<open>
  Claim C6.  A backup object without a \<^verbatim>\<open>surveys\<close> key, or whose \<^verbatim>\<open>surveys\<close> value is
  not an array (the object \<^verbatim>\<open>{}\<close> for one), is rejected with the error
  \<^verbatim>\<open>Invalid backup file format\<close>, and the object and both stores are exactly what they
  were.  More generally every content other than an object whose \<^verbatim>\<open>surveys\<close> is an array
  is rejected with nothing changed.
\<close>

theorem restoreBackup_rejects_malformed:
  "(map_of kvs ''surveys'' = None \<or> (\<exists>v. map_of kvs ''surveys'' = Some v \<and> \<not> isArray v)
      \<longrightarrow> restoreBackup (Loaded (Stringified (JObj kvs))) confirm r this w
            = (Rejected InvalidBackup, this, w))
   \<and> ((\<forall>obj xs. content = Stringified (JObj obj) \<longrightarrow> map_of obj ''surveys'' \<noteq> Some (JArr xs))
      \<longrightarrow> (\<exists>e. restoreBackup (Loaded content) confirm r this w = (Rejected e, this, w)))"
proof (intro conjI impI)
  assume "map_of kvs ''surveys'' = None \<or> (\<exists>v. map_of kvs ''surveys'' = Some v \<and> \<not> isArray v)"
  then show "restoreBackup (Loaded (Stringified (JObj kvs))) confirm r this w
      = (Rejected InvalidBackup, this, w)"
    by (auto simp: restoreBackup_def backup_surveys_def split: json.splits)
next
  assume a: "\<forall>obj xs. content = Stringified (JObj obj) \<longrightarrow> map_of obj ''surveys'' \<noteq> Some (JArr xs)"
  have "\<not> (\<exists>xs. backup_surveys content = Inr xs)"
    using a by (auto simp: backup_surveys_Inr)
  then obtain e where "backup_surveys content = Inl e"
    by (cases "backup_surveys content") auto
  then show "\<exists>e. restoreBackup (Loaded content) confirm r this w = (Rejected e, this, w)"
    by (simp add: restoreBackup_def)
qed

theorem restoreBackup_rejects_malformed_witness:
  "restoreBackup (Loaded (Stringified (JObj []))) True all_ok
      \<lparr>database = Some IDBDatabase, surveys = [sample], currentEditId = None\<rparr> empty_world
     = (Rejected InvalidBackup,
        \<lparr>database = Some IDBDatabase, surveys = [sample], currentEditId = None\<rparr>, empty_world)
   \<and> (\<exists>e. restoreBackup
        (Loaded (Stringified (JObj [(''version'', JStr ''3.0''), (''surveys'', JObj [])])))
        True all_ok \<lparr>database = Some IDBDatabase, surveys = [sample], currentEditId = None\<rparr>
        empty_world
     = (Rejected e,
        \<lparr>database = Some IDBDatabase, surveys = [sample], currentEditId = None\<rparr>, empty_world))"
proof -
  let ?obj = "\<lparr>database = Some IDBDatabase, surveys = [sample], currentEditId = None\<rparr>"
  let ?kvs = "[(''version'', JStr ''3.0''), (''surveys'', JObj [])]"
  have a: "map_of ([] :: (string \<times> json) list) ''surveys'' = None
           \<or> (\<exists>v. map_of ([] :: (string \<times> json) list) ''surveys'' = Some v \<and> \<not> isArray v)"
    by simp
  have b: "\<forall>obj xs. Stringified (JObj ?kvs) = Stringified (JObj obj)
             \<longrightarrow> map_of obj ''surveys'' \<noteq> Some (JArr xs)"
    by auto
  show ?thesis
    using restoreBackup_rejects_malformed
      [of "[]" True all_ok ?obj empty_world "Stringified (JObj ?kvs)"] a b
    by blast
qed

subsection \<open>The fallback store mirrors every persist\<close>




subsection \<open>Persist, restart, load\<close>

text \<open>
  Claim C1, as amended.  Persist the list, then start a fresh object on the world that
  persist left (\<^verbatim>\<open>initDatabase\<close> on the constructor's state).  The loaded list has the
  same records as the persisted one, each as often, and so the same ids, provided the
  restart reads a store that this persist wrote: either the database opens and
  \<^verbatim>\<open>getAll\<close> succeeds, and persist had a handle and its \<^verbatim>\<open>clear\<close> and every \<^verbatim>\<open>add\<close>
  resolved; or the open request fails or \<^verbatim>\<open>getAll\<close> fails, and persist's write to
  localStorage went through.  The order may differ: the object store returns its records
  in key order.
\<close>

theorem persist_then_load_roundtrip:
  assumes "request = OpenSuccess \<and> getAll_ok \<longrightarrow>
             database this \<noteq> None \<and> clear_ok r
             \<and> (\<exists>store'. addAll (add_ok r) 0 (surveys this) [] = Inr store')"
      and "request = OpenError \<or> (request = OpenSuccess \<and> \<not> getAll_ok) \<longrightarrow> setItem_ok r"
      and "request \<noteq> OpenThrows"
  shows "\<exists>this' w'.
           initDatabase request getAll_ok ok' constructor (saveToDatabase r this w) = Inr (this', w')
           \<and> mset (surveys this') = mset (surveys this)
           \<and> id' ` set (surveys this') = id' ` set (surveys this)"
proof -
  let ?w = "saveToDatabase r this w"
  have "\<exists>p. initDatabase request getAll_ok ok' constructor ?w = Inr p"
    using assms(3) by (cases request) (simp_all add: initDatabase_def)
  then obtain this' w' where
    run: "initDatabase request getAll_ok ok' constructor ?w = Inr (this', w')"
    by auto
  have m: "mset (surveys this') = mset (surveys this)"
  proof (cases "request = OpenSuccess \<and> getAll_ok")
    case True
    with assms(1) obtain store' where db: "database this \<noteq> None" and cl: "clear_ok r"
      and ok: "addAll (add_ok r) 0 (surveys this) [] = Inr store'" by auto
    have "objectStore ?w = store'"
      using db cl ok by (rule saveToDatabase_objectStore)
    then have "mset (objectStore ?w) = mset (surveys this)"
      using addAll_mset [OF ok] by simp
    moreover have "surveys this' = objectStore ?w"
      using True run by (auto simp: initDatabase_def loadFromDatabase_def Let_def split: if_splits)
    ultimately show ?thesis by simp
  next
    case False
    with assms(2,3) have "setItem_ok r" by (cases request) auto
    then have ls: "pserSurveys ?w = Some (JSON_stringify (surveys this))"
      by (rule saveToDatabase_pserSurveys)
    have "\<exists>that. this' = loadFromLocalStorage that ?w"
      using False run assms(3)
      by (cases request) (auto simp: initDatabase_def loadFromDatabase_def)
    then show ?thesis
      using loadFromLocalStorage_stringified [OF ls] by auto
  qed
  from m have "set (surveys this') = set (surveys this)" by (rule mset_eq_setD)
  with m run show ?thesis by simp
qed

theorem persist_then_load_roundtrip_witness:
  "initDatabase OpenSuccess True True constructor
      (saveToDatabase all_ok
         \<lparr>database = Some IDBDatabase, surveys = [house101, sample], currentEditId = None\<rparr>
         \<lparr>objectStore = [house7], pserSurveys = Some (Stringified [house7])\<rparr>)
     = Inr (\<lparr>database = Some IDBDatabase, surveys = [sample, house101], currentEditId = None\<rparr>,
            \<lparr>objectStore = [sample, house101], pserSurveys = Some (Stringified [sample, house101])\<rparr>)
   \<and> mset [sample, house101] = mset [house101, sample]
   \<and> initDatabase OpenError True True constructor
      (saveToDatabase all_ok
         \<lparr>database = None, surveys = [house101, sample], currentEditId = None\<rparr>
         \<lparr>objectStore = [house7], pserSurveys = Some (Stringified [house7])\<rparr>)
     = Inr (\<lparr>database = None, surveys = [house101, sample], currentEditId = None\<rparr>,
            \<lparr>objectStore = [house7], pserSurveys = Some (Stringified [house101, sample])\<rparr>)"
proof -
  let ?obj = "\<lparr>database = Some IDBDatabase, surveys = [house101, sample], currentEditId = None\<rparr>"
  let ?off = "\<lparr>database = None, surveys = [house101, sample], currentEditId = None\<rparr>"
  let ?w = "\<lparr>objectStore = [house7], pserSurveys = Some (Stringified [house7])\<rparr>"
  have st: "addAll (add_ok all_ok) 0 (surveys ?obj) [] = Inr [sample, house101]"
    by (simp add: all_ok_def store_add_def house101_def sample_def)
  have a: "OpenSuccess = OpenSuccess \<and> True \<longrightarrow>
      database ?obj \<noteq> None \<and> clear_ok all_ok
      \<and> (\<exists>store'. addAll (add_ok all_ok) 0 (surveys ?obj) [] = Inr store')"
    using st by (simp add: all_ok_def)
  have b: "OpenSuccess = OpenError \<or> (OpenSuccess = OpenSuccess \<and> \<not> True) \<longrightarrow> setItem_ok all_ok"
    by simp
  have c: "OpenSuccess \<noteq> OpenThrows" by simp
  have a': "OpenError = OpenSuccess \<and> True \<longrightarrow>
      database ?off \<noteq> None \<and> clear_ok all_ok
      \<and> (\<exists>store'. addAll (add_ok all_ok) 0 (surveys ?off) [] = Inr store')"
    by simp
  have b': "OpenError = OpenError \<or> (OpenError = OpenSuccess \<and> \<not> True) \<longrightarrow> setItem_ok all_ok"
    by (simp add: all_ok_def)
  have c': "OpenError \<noteq> OpenThrows" by simp
  have e1: "initDatabase OpenSuccess True True constructor (saveToDatabase all_ok ?obj ?w)
      = Inr (\<lparr>database = Some IDBDatabase, surveys = [sample, house101], currentEditId = None\<rparr>,
          \<lparr>objectStore = [sample, house101], pserSurveys = Some (Stringified [sample, house101])\<rparr>)"
    using st
    by (simp add: initDatabase_def loadFromDatabase_def saveToDatabase_def saveToLocalStorage_ok
        constructor_def JSON_stringify_def Let_def all_ok_def)
  have e2: "initDatabase OpenError True True constructor (saveToDatabase all_ok ?off ?w)
      = Inr (\<lparr>database = None, surveys = [house101, sample], currentEditId = None\<rparr>,
          \<lparr>objectStore = [house7], pserSurveys = Some (Stringified [house101, sample])\<rparr>)"
    by (simp add: initDatabase_def loadFromLocalStorage_def saveToDatabase_def
        saveToLocalStorage_ok constructor_def JSON_stringify_def all_ok_def)
  obtain this' w' where
    "initDatabase OpenSuccess True True constructor (saveToDatabase all_ok ?obj ?w) = Inr (this', w')"
    and m: "mset (surveys this') = mset (surveys ?obj)"
    using persist_then_load_roundtrip [OF a b c, of True ?w] by blast
  with e1 have t1: "mset [sample, house101] = mset [house101, sample]" by auto
  obtain this'' w'' where
    "initDatabase OpenError True True constructor (saveToDatabase all_ok ?off ?w) = Inr (this'', w'')"
    and "mset (surveys this'') = mset (surveys ?off)"
    using persist_then_load_roundtrip [OF a' b' c', of True ?w] by blast
  show ?thesis
    using e1 e2 t1 by simp
qed

text \<open>
  The claim as stated fails.  Persisted without a handle, the list reaches localStorage
  only, and a restart whose open succeeds loads the old object store and overwrites
  localStorage with it.  Persisted with a handle, a list with a repeated id aborts the
  transaction, and the restart loads the old object store.  When \<^verbatim>\<open>setItem\<close> throws and
  there is no handle, nothing is written.  When \<^verbatim>\<open>indexedDB.open\<close> throws at the
  restart, nothing is loaded.
\<close>

theorem persist_then_load_counterexample:
  "initDatabase OpenSuccess True True constructor
      (saveToDatabase all_ok \<lparr>database = None, surveys = [house101], currentEditId = None\<rparr>
         \<lparr>objectStore = [sample], pserSurveys = None\<rparr>)
     = Inr (\<lparr>database = Some IDBDatabase, surveys = [sample], currentEditId = None\<rparr>,
            \<lparr>objectStore = [sample], pserSurveys = Some (Stringified [sample])\<rparr>)
   \<and> initDatabase OpenSuccess True True constructor
      (saveToDatabase all_ok
         \<lparr>database = Some IDBDatabase, surveys = [sample, sample\<lparr>totalMembers := 9\<rparr>],
          currentEditId = None\<rparr>
         \<lparr>objectStore = [house7], pserSurveys = None\<rparr>)
     = Inr (\<lparr>database = Some IDBDatabase, surveys = [house7], currentEditId = None\<rparr>,
            \<lparr>objectStore = [house7], pserSurveys = Some (Stringified [house7])\<rparr>)
   \<and> initDatabase OpenError True True constructor
      (saveToDatabase \<lparr>clear_ok = True, add_ok = (\<lambda>i. True), setItem_ok = False\<rparr>
         \<lparr>database = None, surveys = [house101], currentEditId = None\<rparr>
         \<lparr>objectStore = [], pserSurveys = None\<rparr>)
     = Inr (\<lparr>database = None, surveys = [], currentEditId = None\<rparr>,
            \<lparr>objectStore = [], pserSurveys = None\<rparr>)
   \<and> initDatabase OpenThrows True True constructor
      (saveToDatabase all_ok \<lparr>database = None, surveys = [house101], currentEditId = None\<rparr>
         \<lparr>objectStore = [], pserSurveys = None\<rparr>)
     = Inl SecurityError
   \<and> id' sample \<noteq> id' house101 \<and> id' house7 \<noteq> id' sample"
  by (simp add: initDatabase_def loadFromDatabase_def loadFromLocalStorage_def saveToDatabase_def
      saveToLocalStorage_ok saveToLocalStorage_failed store_add_def constructor_def
      JSON_stringify_def Let_def all_ok_def sample_def house101_def house7_def)

subsection \<open>Searching by one criterion\<close>

text \<open>
  Claim C7.  A search with only a house number (the CNIC input missing or empty) shows
  exactly the records whose \<^verbatim>\<open>houseNumber\<close> is the number that \<^verbatim>\<open>parseInt\<close> reads from
  the input, in list order; for an input of decimal digits that denotes a number below
  \<open>2 ^ 53\<close> that is the number the digits denote.  A search with only a CNIC input shows
  exactly the records whose \<^verbatim>\<open>hohCnic\<close>, reduced to its digits, contains the digits of
  the input as a contiguous substring; an input made of digits is its own reduction.
\<close>

theorem searchSurvey_single_criterion:
  "(hv \<noteq> [] \<and> \<not> hasValue cnicInput \<longrightarrow>
      searchSurvey (Some hv) cnicInput this
        = Some (filter (\<lambda>s. Number (houseNumber s) = parseInt hv) (surveys this)))
   \<and> (hv \<noteq> [] \<and> \<not> hasValue cnicInput \<and> (\<forall>c\<in>set hv. c \<in> set ''0123456789'')
        \<and> decimal hv < 2 ^ 53 \<longrightarrow>
      searchSurvey (Some hv) cnicInput this
        = Some (filter (\<lambda>s. houseNumber s = int (decimal hv)) (surveys this)))
   \<and> (cv \<noteq> [] \<and> \<not> hasValue houseNumberInput \<longrightarrow>
      searchSurvey houseNumberInput (Some cv) this
        = Some (filter (\<lambda>s. \<exists>u v. digits_of (hohCnic s) = u @ digits_of cv @ v) (surveys this)))
   \<and> ((\<forall>c\<in>set cv. c \<in> set ''0123456789'') \<longrightarrow> digits_of cv = cv)"
proof (intro conjI impI)
  assume a: "hv \<noteq> [] \<and> \<not> hasValue cnicInput"
  then show "searchSurvey (Some hv) cnicInput this
      = Some (filter (\<lambda>s. Number (houseNumber s) = parseInt hv) (surveys this))"
    by (simp add: searchSurvey_def hasValue_def value_of_def)
next
  assume a: "hv \<noteq> [] \<and> \<not> hasValue cnicInput \<and> (\<forall>c\<in>set hv. c \<in> set ''0123456789'')
      \<and> decimal hv < 2 ^ 53"
  then have "\<forall>c\<in>set hv. isDigit c" by (simp only: isDigit_iff) simp
  with a have "parseInt hv = Number (int (decimal hv))" by (simp add: parseInt_decimal)
  with a show "searchSurvey (Some hv) cnicInput this
      = Some (filter (\<lambda>s. houseNumber s = int (decimal hv)) (surveys this))"
    by (simp add: searchSurvey_def hasValue_def value_of_def)
next
  assume a: "cv \<noteq> [] \<and> \<not> hasValue houseNumberInput"
  let ?hits = "filter (\<lambda>s. includes' (digitsOnly (hohCnic s)) (digitsOnly cv)) (surveys this)"
  have "searchSurvey houseNumberInput (Some cv) this = Some ?hits"
    using a by (cases "?hits") (simp_all add: searchSurvey_def hasValue_def value_of_def Let_def)
  then show "searchSurvey houseNumberInput (Some cv) this
      = Some (filter (\<lambda>s. \<exists>u v. digits_of (hohCnic s) = u @ digits_of cv @ v) (surveys this))"
    by (simp add: includes_iff digitsOnly_digits_of)
next
  assume "\<forall>c\<in>set cv. c \<in> set ''0123456789''"
  then show "digits_of cv = cv" by (induction cv) simp_all
qed

theorem searchSurvey_single_criterion_witness:
  "searchSurvey (Some ''101'') None
      \<lparr>database = None, surveys = [sample, house101, house7], currentEditId = None\<rparr>
     = Some [house101]
   \<and> decimal ''101'' = 101
   \<and> searchSurvey (Some ''9007199254740993'') None
      \<lparr>database = None, surveys = [sample\<lparr>houseNumber := 9007199254740992\<rparr>, house101],
       currentEditId = None\<rparr>
     = Some [sample\<lparr>houseNumber := 9007199254740992\<rparr>]
   \<and> searchSurvey None (Some ''30112'')
      \<lparr>database = None, surveys = [sample, house101, house7], currentEditId = None\<rparr>
     = Some [sample]
   \<and> filter (\<lambda>s. \<exists>u v. digits_of (hohCnic s) = u @ ''30112'' @ v) [sample, house101, house7]
     = [sample]
   \<and> searchSurvey None (Some ''12345'')
      \<lparr>database = None, surveys = [sample, house101, house7], currentEditId = None\<rparr>
     = Some [sample, house7]"
proof -
  let ?obj = "\<lparr>database = None, surveys = [sample, house101, house7], currentEditId = None\<rparr>"
  let ?big = "\<lparr>database = None, surveys = [sample\<lparr>houseNumber := 9007199254740992\<rparr>, house101],
       currentEditId = None\<rparr>"
  have d: "decimal ''101'' = 101"
    by (simp add: decimal_def lessThan_Suc numeral_3_eq_3)
  have h: "''101'' \<noteq> [] \<and> \<not> hasValue None \<and> (\<forall>c\<in>set ''101''. c \<in> set ''0123456789'')
      \<and> decimal ''101'' < 2 ^ 53"
    using d by (simp add: hasValue_def)
  have big: "parseInt ''9007199254740993'' = Number 9007199254740992"
    by (simp add: parseInt_def isWhiteSpace_def isRadixDigit_def digitValue_def toNumber_def
        toDouble_def Let_def)
  have hb: "''9007199254740993'' \<noteq> [] \<and> \<not> hasValue None" by (simp add: hasValue_def)
  have c: "''30112'' \<noteq> [] \<and> \<not> hasValue None" by (simp add: hasValue_def)
  have e1: "filter (\<lambda>s. houseNumber s = 101) [sample, house101, house7] = [house101]"
    by (simp add: sample_def house101_def house7_def)
  have e2: "searchSurvey None (Some ''30112'') ?obj = Some [sample]"
    by (simp add: searchSurvey_def hasValue_def value_of_def digitsOnly_def isDigit_def
        sample_def house101_def house7_def Let_def)
  have e3: "searchSurvey None (Some ''12345'') ?obj = Some [sample, house7]"
    by (simp add: searchSurvey_def hasValue_def value_of_def digitsOnly_def isDigit_def
        sample_def house101_def house7_def Let_def)
  have e4: "filter (\<lambda>s. Number (houseNumber s) = Number 9007199254740992)
      [sample\<lparr>houseNumber := 9007199254740992\<rparr>, house101]
      = [sample\<lparr>houseNumber := 9007199254740992\<rparr>]"
    by (simp add: house101_def sample_def)
  have t1: "searchSurvey (Some ''101'') None ?obj
      = Some (filter (\<lambda>s. houseNumber s = int (decimal ''101'')) (surveys ?obj))"
    using searchSurvey_single_criterion [of "''101''" None ?obj "''30112''" None] h by blast
  have t2: "searchSurvey (Some ''9007199254740993'') None ?big
      = Some (filter (\<lambda>s. Number (houseNumber s) = parseInt ''9007199254740993'') (surveys ?big))"
    using searchSurvey_single_criterion [of "''9007199254740993''" None ?big "''30112''" None] hb
    by blast
  have t3: "searchSurvey None (Some ''30112'') ?obj
      = Some (filter (\<lambda>s. \<exists>u v. digits_of (hohCnic s) = u @ digits_of ''30112'' @ v)
                (surveys ?obj))"
    using searchSurvey_single_criterion [of "''101''" None ?obj "''30112''" None] c by blast
  have t4: "digits_of ''30112'' = ''30112''" by simp
  show ?thesis
    using t1 t2 t3 t4 d e1 e2 e3 e4 big by simp
qed

subsection \<open>When the database does not open\<close>

text \<open>
  When the open request fires \<^verbatim>\<open>onerror\<close>, \<^verbatim>\<open>initDatabase\<close> loads exactly what the
  \<^verbatim>\<open>pserSurveys\<close> item holds (the empty list when it is absent or not JSON) and leaves
  the world alone.  After any session that follows, the object still has no database
  handle, and \<^verbatim>\<open>saveToDatabase\<close> returns normally: it writes the in-memory list to
  localStorage and nothing else, and a throwing \<^verbatim>\<open>setItem\<close> is caught with the world
  unchanged.
\<close>

lemma open_error_falls_back:
  "\<exists>this0. initDatabase OpenError getAll_ok ok constructor w = Inr (this0, w)
     \<and> surveys this0 = (case pserSurveys w of Some (Stringified xs) \<Rightarrow> xs | _ \<Rightarrow> [])
     \<and> (let s = session acts (this0, w) in
          database (fst s) = None
          \<and> saveToDatabase r (fst s) (snd s)
              = (if setItem_ok r
                 then (snd s)\<lparr>pserSurveys := Some (JSON_stringify (surveys (fst s)))\<rparr>
                 else snd s))"
proof -
  let ?loaded = "loadFromLocalStorage constructor w"
  have boot: "initDatabase OpenError getAll_ok ok constructor w = Inr (?loaded, w)"
    by (simp add: initDatabase_def)
  have a: "surveys ?loaded = (case pserSurveys w of Some (Stringified xs) \<Rightarrow> xs | _ \<Rightarrow> [])"
    by (simp add: loadFromLocalStorage_def split: option.splits json_text.splits)
  have "database ?loaded = None"
    by (simp add: loadFromLocalStorage_def constructor_def split: option.splits sum.splits)
  then have c: "database (fst (session acts (?loaded, w))) = None"
    by (simp add: session_database)
  show ?thesis
    using boot a c saveToDatabase_no_handle [OF c, of r "snd (session acts (?loaded, w))"]
    by (simp add: Let_def)
qed

text \<open>
  Claim C4.  An open that fails should leave the object with the list that the
  FallbackStore holds.  The code does so when the request fires \<^verbatim>\<open>onerror\<close>, and not
  when \<^verbatim>\<open>indexedDB.open\<close> throws at the call: with the list \<open>[house101]\<close> in
  localStorage, the promise of \<^verbatim>\<open>initDatabase\<close> is rejected, \<^verbatim>\<open>loadFromLocalStorage\<close>
  does not run, and the list of the object is the constructor's empty one.
\<close>

theorem initDatabase_open_throws:
  "initDatabase OpenThrows True True constructor
      \<lparr>objectStore = [], pserSurveys = Some (Stringified [house101])\<rparr> = Inl SecurityError
   \<and> surveys constructor = []
   \<and> surveys (loadFromLocalStorage constructor
        \<lparr>objectStore = [], pserSurveys = Some (Stringified [house101])\<rparr>) = [house101]
   \<and> initDatabase OpenError True True constructor
      \<lparr>objectStore = [], pserSurveys = Some (Stringified [house101])\<rparr>
     = Inr (\<lparr>database = None, surveys = [house101], currentEditId = None\<rparr>,
            \<lparr>objectStore = [], pserSurveys = Some (Stringified [house101])\<rparr>)"
  by (simp add: initDatabase_def loadFromLocalStorage_def constructor_def)

subsection \<open>Replace in edit mode, append otherwise\<close>

text \<open>
  Claim C2, as amended.  With a valid form: in edit mode, when a record with the edit id
  is in the list, \<^verbatim>\<open>saveSurvey\<close> overwrites the first such entry where it stands (the
  other entries, their order and the length are unchanged); outside edit mode it pushes
  the record, whose id is the clock reading, at the end (the length grows by one).  The
  choice follows the edit mode, not a lookup of the record's id.
\<close>

theorem saveSurvey_replaces_or_appends:
  assumes "valid"
  shows "(truthy_id (currentEditId this)
          \<and> (\<exists>s\<in>set (surveys this). Some (id' s) = currentEditId this) \<longrightarrow>
            (\<exists>i<length (surveys this).
                id' (surveys this ! i) = id' (getFormData this form c)
                \<and> (\<forall>j<i. id' (surveys this ! j) \<noteq> id' (getFormData this form c))
                \<and> surveys (fst (saveSurvey isNew valid form c r this w))
                    = (surveys this)[i := getFormData this form c])
            \<and> length (surveys (fst (saveSurvey isNew valid form c r this w)))
                = length (surveys this))
       \<and> (\<not> truthy_id (currentEditId this) \<longrightarrow>
            surveys (fst (saveSurvey isNew valid form c r this w))
              = surveys this @ [getFormData this form c]
            \<and> length (surveys (fst (saveSurvey isNew valid form c r this w)))
                = length (surveys this) + 1)"
proof (intro conjI impI)
  assume a: "truthy_id (currentEditId this)
      \<and> (\<exists>s\<in>set (surveys this). Some (id' s) = currentEditId this)"
  let ?P = "\<lambda>s. Some (id' s) = currentEditId this"
  let ?i = "nat (findIndex ?P (surveys this))"
  have e: "Some (id' (getFormData this form c)) = currentEditId this"
    using a by (simp add: getFormData_id_edit)
  have f: "?i < length (surveys this)" "?P (surveys this ! ?i)" "\<forall>j < ?i. \<not> ?P (surveys this ! j)"
    using findIndex_found [of "surveys this" ?P] a by auto
  have u: "surveys (fst (saveSurvey isNew valid form c r this w))
      = (surveys this)[?i := getFormData this form c]"
    using assms a by (simp add: saveSurvey_edit_found)
  have "id' (surveys this ! ?i) = id' (getFormData this form c)"
    using f(2) e by (metis option.inject)
  moreover have "\<forall>j < ?i. id' (surveys this ! j) \<noteq> id' (getFormData this form c)"
    using f(3) e by metis
  ultimately show "\<exists>i<length (surveys this).
      id' (surveys this ! i) = id' (getFormData this form c)
      \<and> (\<forall>j<i. id' (surveys this ! j) \<noteq> id' (getFormData this form c))
      \<and> surveys (fst (saveSurvey isNew valid form c r this w))
          = (surveys this)[i := getFormData this form c]"
    using f(1) u by blast
  show "length (surveys (fst (saveSurvey isNew valid form c r this w))) = length (surveys this)"
    using u by simp
next
  assume n: "\<not> truthy_id (currentEditId this)"
  then show "surveys (fst (saveSurvey isNew valid form c r this w))
      = surveys this @ [getFormData this form c]"
    using assms by (simp add: saveSurvey_new)
  then show "length (surveys (fst (saveSurvey isNew valid form c r this w)))
      = length (surveys this) + 1"
    by simp
qed

theorem saveSurvey_replaces_or_appends_witness:
  "surveys (fst (saveSurvey False True (house101\<lparr>totalMembers := 9\<rparr>) tick all_ok
      \<lparr>database = None, surveys = [sample, house101, house7], currentEditId = Some ''2''\<rparr>
      empty_world))
     = [sample, house101\<lparr>totalMembers := 9, timestamp := iso tick\<rparr>, house7]
   \<and> surveys (fst (saveSurvey True True house7 tick all_ok
      \<lparr>database = None, surveys = [sample, house101], currentEditId = None\<rparr> empty_world))
     = [sample, house101, house7\<lparr>id' := now tick, timestamp := iso tick\<rparr>]"
proof -
  let ?ed = "\<lparr>database = None, surveys = [sample, house101, house7], currentEditId = Some ''2''\<rparr>"
  let ?new = "\<lparr>database = None, surveys = [sample, house101], currentEditId = None\<rparr>"
  have a: "truthy_id (currentEditId ?ed)
      \<and> (\<exists>s\<in>set (surveys ?ed). Some (id' s) = currentEditId ?ed)"
    by (simp add: truthy_id_def house101_def)
  have b: "\<not> truthy_id (currentEditId ?new)" by (simp add: truthy_id_def)
  have e1: "surveys (fst (saveSurvey False True (house101\<lparr>totalMembers := 9\<rparr>) tick all_ok ?ed
      empty_world))
     = [sample, house101\<lparr>totalMembers := 9, timestamp := iso tick\<rparr>, house7]"
    by (simp add: saveSurvey_def truthy_id_def getFormData_def Let_def sample_def house101_def
        house7_def)
  show ?thesis
    using saveSurvey_replaces_or_appends
        [where valid = True and this = ?new and form = house7 and c = tick and isNew = True
           and r = all_ok and w = empty_world]
      saveSurvey_replaces_or_appends
        [where valid = True and this = ?ed and form = "house101\<lparr>totalMembers := 9\<rparr>"
           and c = tick and isNew = False and r = all_ok and w = empty_world] a b e1
    by (simp add: getFormData_def)
qed

text \<open>
  The claim as stated fails: after a record under edit has been deleted, the id of the
  form's record is not in the list, and the save does not append it.
\<close>

theorem saveSurvey_upsert_counterexample:
  "session [EditSurvey ''3'', DeleteSurvey True True all_ok ''3'']
      (\<lparr>database = None, surveys = [sample, house101, house7], currentEditId = None\<rparr>, empty_world)
     = (\<lparr>database = None, surveys = [sample, house101], currentEditId = Some ''3''\<rparr>,
        \<lparr>objectStore = [], pserSurveys = Some (Stringified [sample, house101])\<rparr>)
   \<and> id' (getFormData
        \<lparr>database = None, surveys = [sample, house101], currentEditId = Some ''3''\<rparr> house7 tick)
       \<notin> id' ` set [sample, house101]
   \<and> surveys (fst (saveSurvey False True house7 tick all_ok
        \<lparr>database = None, surveys = [sample, house101], currentEditId = Some ''3''\<rparr>
        \<lparr>objectStore = [], pserSurveys = Some (Stringified [sample, house101])\<rparr>))
       = [sample, house101]
   \<and> surveys (fst (saveSurvey False True house7 tick all_ok
        \<lparr>database = None, surveys = [sample, house101], currentEditId = Some ''3''\<rparr>
        \<lparr>objectStore = [], pserSurveys = Some (Stringified [sample, house101])\<rparr>))
       \<noteq> [sample, house101]
          @ [getFormData
               \<lparr>database = None, surveys = [sample, house101], currentEditId = Some ''3''\<rparr>
               house7 tick]"
  by (simp add: session_def editSurvey_def deleteSurvey_def saveToLocalStorage_ok
      saveToDatabase_def all_ok_def empty_world_def JSON_stringify_def saveSurvey_def
      truthy_id_def getFormData_def Let_def sample_def house101_def house7_def)

subsection \<open>Saving twice\<close>

text \<open>
  Claim C5, as amended.  With a valid form: in edit mode, when a record with the edit id
  is in the list, saving a second time gives the list of the first save; the length is
  that of the list before, and as many entries carry the id as before (one, when ids were
  unique).  Outside edit mode a save adds one record under the clock reading, so exactly
  one entry has that id when the reading was not an id of the list.  No save lengthens
  the list by more than one, and a save in edit mode does not lengthen it.
\<close>

theorem saveSurvey_twice:
  assumes "valid"
  shows "(truthy_id (currentEditId this)
          \<and> (\<exists>s\<in>set (surveys this). Some (id' s) = currentEditId this) \<longrightarrow>
            (let s1 = saveSurvey False valid form c r this w;
                 s2 = saveSurvey False valid form c r' (fst s1) (snd s1)
             in surveys (fst s2) = surveys (fst s1)
                \<and> length (surveys (fst s2)) = length (surveys this)
                \<and> length (filter (\<lambda>s. id' s = id' (getFormData this form c)) (surveys (fst s2)))
                   = length (filter (\<lambda>s. id' s = id' (getFormData this form c)) (surveys this))))
       \<and> (\<not> truthy_id (currentEditId this) \<and> now c \<notin> id' ` set (surveys this) \<longrightarrow>
            length (filter (\<lambda>s. id' s = now c)
                      (surveys (fst (saveSurvey isNew valid form c r this w)))) = 1)
       \<and> length (surveys (fst (saveSurvey isNew valid form c r this w)))
           \<le> length (surveys this) + 1
       \<and> (truthy_id (currentEditId this) \<longrightarrow>
            length (surveys (fst (saveSurvey isNew valid form c r this w)))
              = length (surveys this))"
proof (intro conjI impI)
  assume a: "truthy_id (currentEditId this)
      \<and> (\<exists>s\<in>set (surveys this). Some (id' s) = currentEditId this)"
  let ?P = "\<lambda>s. Some (id' s) = currentEditId this"
  let ?xs = "surveys this"
  let ?i = "nat (findIndex ?P ?xs)"
  let ?d = "getFormData this form c"
  let ?s1 = "saveSurvey False valid form c r this w"
  have e: "?P ?d" using a by (simp add: getFormData_id_edit)
  have f: "?i < length ?xs" "?P (?xs ! ?i)" "\<forall>j < ?i. \<not> ?P (?xs ! j)"
    using findIndex_found [of ?xs ?P] a by auto
  have u1: "surveys (fst ?s1) = ?xs[?i := ?d]"
    using assms a by (simp add: saveSurvey_edit_found)
  have ed: "currentEditId (fst ?s1) = currentEditId this"
    using assms by (simp add: saveSurvey_def Let_def)
  have d2: "getFormData (fst ?s1) form c = ?d"
    by (simp add: getFormData_def ed)
  have g: "?i < length (?xs[?i := ?d])" "?P (?xs[?i := ?d] ! ?i)"
    "\<forall>j < ?i. \<not> ?P (?xs[?i := ?d] ! j)"
    using f e by auto
  have idx: "findIndex ?P (?xs[?i := ?d]) = int ?i"
    using g by (rule findIndex_unique)
  have ex: "\<exists>s\<in>set (surveys (fst ?s1)). Some (id' s) = currentEditId (fst ?s1)"
    unfolding u1 ed using g(1,2) by (metis nth_mem)
  have u2: "surveys (fst (saveSurvey False valid form c r' (fst ?s1) (snd ?s1)))
      = ?xs[?i := ?d]"
    using saveSurvey_edit_found [OF assms _ ex, of False form c r' "snd ?s1"] a
    by (simp add: ed u1 d2 idx)
  have same: "(id' (?xs ! ?i) = id' ?d) = (id' ?d = id' ?d)"
    using f(2) e by (metis option.inject)
  have cnt: "length (filter (\<lambda>s. id' s = id' ?d) (?xs[?i := ?d]))
      = length (filter (\<lambda>s. id' s = id' ?d) ?xs)"
    using f(1) same by (rule filter_update_same)
  show "let s1 = saveSurvey False valid form c r this w;
            s2 = saveSurvey False valid form c r' (fst s1) (snd s1)
        in surveys (fst s2) = surveys (fst s1)
           \<and> length (surveys (fst s2)) = length (surveys this)
           \<and> length (filter (\<lambda>s. id' s = id' (getFormData this form c)) (surveys (fst s2)))
              = length (filter (\<lambda>s. id' s = id' (getFormData this form c)) (surveys this))"
    using u1 u2 cnt by (simp add: Let_def)
next
  assume n: "\<not> truthy_id (currentEditId this) \<and> now c \<notin> id' ` set (surveys this)"
  then have "filter (\<lambda>s. id' s = now c) (surveys this) = []"
    by (force simp: filter_empty_conv)
  then show "length (filter (\<lambda>s. id' s = now c)
      (surveys (fst (saveSurvey isNew valid form c r this w)))) = 1"
    using n assms by (simp add: saveSurvey_new getFormData_id_new)
next
  show "length (surveys (fst (saveSurvey isNew valid form c r this w)))
      \<le> length (surveys this) + 1"
    by (simp add: saveSurvey_def Let_def)
next
  assume "truthy_id (currentEditId this)"
  then show "length (surveys (fst (saveSurvey isNew valid form c r this w)))
      = length (surveys this)"
    by (simp add: saveSurvey_def Let_def)
qed

theorem saveSurvey_twice_witness:
  "surveys (fst (saveSurvey False True (house101\<lparr>totalMembers := 9\<rparr>) tick all_ok
      (fst (saveSurvey False True (house101\<lparr>totalMembers := 9\<rparr>) tick all_ok
         \<lparr>database = None, surveys = [sample, house101, house7], currentEditId = Some ''2''\<rparr>
         empty_world))
      (snd (saveSurvey False True (house101\<lparr>totalMembers := 9\<rparr>) tick all_ok
         \<lparr>database = None, surveys = [sample, house101, house7], currentEditId = Some ''2''\<rparr>
         empty_world))))
     = [sample, house101\<lparr>totalMembers := 9, timestamp := iso tick\<rparr>, house7]
   \<and> length (filter (\<lambda>s. id' s = ''2'')
        [sample, house101\<lparr>totalMembers := 9, timestamp := iso tick\<rparr>, house7]) = 1
   \<and> length (filter (\<lambda>s. id' s = now tick)
        (surveys (fst (saveSurvey True True house7 tick all_ok
           \<lparr>database = None, surveys = [sample, house101], currentEditId = None\<rparr> empty_world))))
      = 1"
proof -
  let ?ed = "\<lparr>database = None, surveys = [sample, house101, house7], currentEditId = Some ''2''\<rparr>"
  let ?new = "\<lparr>database = None, surveys = [sample, house101], currentEditId = None\<rparr>"
  let ?form = "house101\<lparr>totalMembers := 9\<rparr>"
  have a: "truthy_id (currentEditId ?ed)
      \<and> (\<exists>s\<in>set (surveys ?ed). Some (id' s) = currentEditId ?ed)"
    by (simp add: truthy_id_def house101_def)
  have b: "\<not> truthy_id (currentEditId ?new) \<and> now tick \<notin> id' ` set (surveys ?new)"
    by (simp add: truthy_id_def tick_def sample_def house101_def)
  have e1: "surveys (fst (saveSurvey False True ?form tick all_ok ?ed empty_world))
     = [sample, house101\<lparr>totalMembers := 9, timestamp := iso tick\<rparr>, house7]"
    by (simp add: saveSurvey_def truthy_id_def getFormData_def Let_def sample_def
        house101_def house7_def)
  have e2: "length (filter (\<lambda>s. id' s = ''2'')
        [sample, house101\<lparr>totalMembers := 9, timestamp := iso tick\<rparr>, house7]) = 1"
    by (simp add: sample_def house101_def house7_def)
  have t1: "surveys (fst (saveSurvey False True ?form tick all_ok
        (fst (saveSurvey False True ?form tick all_ok ?ed empty_world))
        (snd (saveSurvey False True ?form tick all_ok ?ed empty_world))))
      = surveys (fst (saveSurvey False True ?form tick all_ok ?ed empty_world))"
    using saveSurvey_twice
        [where valid = True and this = ?ed and form = ?form and c = tick and isNew = False
           and r = all_ok and w = empty_world and r' = all_ok] a
    by (simp add: Let_def)
  have t2: "length (filter (\<lambda>s. id' s = now tick)
        (surveys (fst (saveSurvey True True house7 tick all_ok ?new empty_world)))) = 1"
    using saveSurvey_twice
        [where valid = True and this = ?new and form = house7 and c = tick and isNew = True
           and r = all_ok and w = empty_world and r' = all_ok] b
    by simp
  show ?thesis
    using t1 t2 e1 e2 by simp
qed

text \<open>
  The claim as stated fails: two saves of the same record under an edit id that is gone
  leave no entry with that id, and two saves outside edit mode at the same clock reading
  leave two.
\<close>

theorem saveSurvey_idempotence_counterexample:
  "filter (\<lambda>s. id' s = ''3'')
     (surveys (fst (session
        [EditSurvey ''3'', DeleteSurvey True True all_ok ''3'',
         SaveSurvey False True house7 tick all_ok, SaveSurvey False True house7 tick all_ok]
        (\<lparr>database = None, surveys = [sample, house101, house7], currentEditId = None\<rparr>,
         empty_world)))) = []
   \<and> map id' (surveys (fst (session
        [SaveSurvey False True house7 tick all_ok, SaveSurvey False True house7 tick all_ok]
        (\<lparr>database = None, surveys = [], currentEditId = None\<rparr>, empty_world))))
     = [now tick, now tick]"
  by (simp add: session_def editSurvey_def deleteSurvey_def saveToLocalStorage_ok
      saveToDatabase_def all_ok_def empty_world_def JSON_stringify_def saveSurvey_def
      truthy_id_def getFormData_def Let_def sample_def house101_def house7_def)

end
